theory Spec2Isabelle
  imports Main "HOL-Library.Word"
begin

unbundle bit_operations_syntax

section \<open>Data model of \<^verbatim>\<open>Programming/Projekti_1/main.c\<close>\<close>

text \<open>
  The program is firmware for an 8-bit AVR microcontroller and is built with avr-gcc
  (it includes \<^verbatim>\<open>avr/io.h\<close>, \<^verbatim>\<open>avr/interrupt.h\<close> and \<^verbatim>\<open>avr/sleep.h\<close>).
  On that target \<^verbatim>\<open>int\<close> and \<^verbatim>\<open>unsigned int\<close> are 16 bits wide, so
  \<^verbatim>\<open>uint16_t\<close> is \<^verbatim>\<open>unsigned int\<close> and is not promoted to a wider type:
  arithmetic that mixes an \<^verbatim>\<open>int\<close> constant with a \<^verbatim>\<open>uint16_t\<close> operand is carried
  out in \<^verbatim>\<open>unsigned int\<close>, modulo \<open>2 ^ 16\<close>. The integer variables are therefore
  modelled as words of their declared width: \<open>+\<close>, \<open>-\<close> and \<open>*\<close> wrap around,
  \<open>div\<close> and \<open>mod\<close> are the unsigned operations, \<open><\<close> compares unsigned and
  \<open><s\<close> compares in two's complement.
\<close>

type_synonym uint8_t = "8 word"
type_synonym int8_t = "8 word"
type_synonym uint16_t = "16 word"
type_synonym int16_t = "16 word"

text \<open>
  One entry of \<^verbatim>\<open>task_list\<close> (lines 41 to 46). The fields \<^verbatim>\<open>delay\<close> and
  \<^verbatim>\<open>run\<close> are signed in the source; they are kept as bit patterns and read with
  \<open>sint\<close> or compared with \<open><s\<close> where the sign matters.
\<close>

record task =
  task_number :: uint8_t
  delay :: int16_t
  interval :: uint16_t
  run :: int8_t

definition TASK_MAX :: nat where
  "TASK_MAX = 2"

definition ADC_TASK :: uint8_t where
  "ADC_TASK = 1"

definition FREQ_TASK :: uint8_t where
  "FREQ_TASK = 2"

text \<open>
  The global variables of the program, the device registers it writes, and the bytes it
  has written to the USART data register \<^verbatim>\<open>UDR0\<close>, oldest first. The array
  \<^verbatim>\<open>task_list[TASK_MAX]\<close> is a function from the index; only the indices below
  \<open>TASK_MAX\<close> exist in the program. \<open>SREG_I\<close> is the global interrupt enable flag
  and \<open>cpu_halted\<close> says that the processor is stopped in the sleep instruction.
\<close>

record state =
  task_list :: "nat \<Rightarrow> task"
  frequency_control :: uint16_t
  conversion_result :: uint16_t
  OCR1A :: uint16_t
  ADMUX :: uint8_t
  ADCSRA :: uint8_t
  SMCR :: uint8_t
  SREG_I :: bool
  cpu_halted :: bool
  UDR0_sent :: string

text \<open>
  The state at reset: the initialiser of line 21 gives \<^verbatim>\<open>frequency_control\<close> the value
  283, every other global is zero-initialised, the registers hold their reset value 0 and
  nothing has been transmitted.
\<close>

definition reset_state :: state where
  "reset_state =
     \<lparr> task_list = (\<lambda>_. \<lparr> task_number = 0, delay = 0, interval = 0, run = 0 \<rparr>),
       frequency_control = 283,
       conversion_result = 0,
       OCR1A = 0,
       ADMUX = 0,
       ADCSRA = 0,
       SMCR = 0,
       SREG_I = False,
       cpu_halted = False,
       UDR0_sent = [] \<rparr>"

section \<open>Conversion completion handler\<close>

text \<open>
  \<^verbatim>\<open>ISR(ADC_vect)\<close>, lines 290 to 305. The argument is the value read from the data
  register \<^verbatim>\<open>ADC\<close>. In line 303 the constant \<^verbatim>\<open>(2499-124)\<close> has type \<^verbatim>\<open>int\<close> and
  \<^verbatim>\<open>conversion_result\<close> has type \<^verbatim>\<open>uint16_t\<close>, so the product, the quotient and the
  sum are computed in 16-bit unsigned arithmetic.
\<close>

definition ADC_vect :: "uint16_t \<Rightarrow> state \<Rightarrow> state" where
  "ADC_vect ADC s =
     (let s1 = s\<lparr>conversion_result := ADC\<rparr>;
          s2 = (if conversion_result s1 < 50 then s1\<lparr>conversion_result := 50\<rparr>
                else if conversion_result s1 > 1000 then s1\<lparr>conversion_result := 1000\<rparr>
                else s1);
          s3 = s2\<lparr>frequency_control := 124 + ((2499 - 124) * conversion_result s2) div 1000\<rparr>
      in s3\<lparr>OCR1A := frequency_control s3\<rparr>)"

text \<open>
  The mapping as the specification words it, over the natural numbers, where no
  intermediate result is reduced: clamp the raw value into \<open>[50, 1000]\<close>, then
  \<open>124 + (2499 - 124) * clamped / 1000\<close> with integer division.
\<close>

definition spec_clamp :: "nat \<Rightarrow> nat" where
  "spec_clamp r = (if r < 50 then 50 else if r > 1000 then 1000 else r)"

definition spec_frequency_control :: "nat \<Rightarrow> nat" where
  "spec_frequency_control r = 124 + ((2499 - 124) * spec_clamp r) div 1000"

section \<open>Task scheduler\<close>

text \<open>
  An assignment to fields of \<^verbatim>\<open>task_list[index]\<close>: the entry at \<open>index\<close> is replaced
  by \<open>f\<close> of the old entry and nothing else changes.
\<close>

definition slot_upd :: "nat \<Rightarrow> (task \<Rightarrow> task) \<Rightarrow> state \<Rightarrow> state" where
  "slot_upd index f s = s\<lparr>task_list := (task_list s)(index := f (task_list s index))\<rparr>"

text \<open>
  The body of the loop of \<^verbatim>\<open>update\<close> (lines 141 to 152) for one index, and the loop
  itself over the indices \<open>0, \<dots>, TASK_MAX - 1\<close> (line 139). The timer interrupt
  handler (lines 173 to 178) calls \<^verbatim>\<open>update\<close> once per tick. \<^verbatim>\<open>run += 1\<close> on the
  \<^verbatim>\<open>int8_t\<close> field and \<^verbatim>\<open>delay -= 1\<close> on the \<^verbatim>\<open>int16_t\<close> field are the wrapping
  operations of avr-gcc; the assignment \<^verbatim>\<open>delay = interval\<close> keeps the bit pattern.
\<close>

definition update_slot :: "nat \<Rightarrow> state \<Rightarrow> state" where
  "update_slot index s =
     (if task_number (task_list s index) \<noteq> 0 then
        (if delay (task_list s index) = 0 then
           (let s1 = slot_upd index (\<lambda>t. t\<lparr>run := run t + 1\<rparr>) s
            in if interval (task_list s1 index) \<noteq> 0
               then slot_upd index (\<lambda>t. t\<lparr>delay := interval t\<rparr>) s1
               else s1)
         else slot_upd index (\<lambda>t. t\<lparr>delay := delay t - 1\<rparr>) s)
      else s)"

definition update :: "state \<Rightarrow> state" where
  "update s = fold update_slot [0..<TASK_MAX] s"

text \<open>
  \<^verbatim>\<open>add_task\<close> (lines 182 to 187). The source does not check \<^verbatim>\<open>number\<close>; a store
  outside the array is undefined behaviour in C and is the result \<open>None\<close> here. The
  \<^verbatim>\<open>run\<close> field is not written.
\<close>

definition add_task ::
    "uint8_t \<Rightarrow> uint8_t \<Rightarrow> int16_t \<Rightarrow> int16_t \<Rightarrow> state \<Rightarrow> state option" where
  "add_task number tnum dly ivl s =
     (if unat number < TASK_MAX
      then Some (slot_upd (unat number)
                   (\<lambda>t. t\<lparr>task_number := tnum, delay := dly, interval := ivl\<rparr>) s)
      else None)"

text \<open>
  \<^verbatim>\<open>init_tasks\<close> (lines 191 to 200): every iteration of the loop clears the task number
  of the entry at \<open>index\<close> and then registers both tasks.
\<close>

definition init_tasks_body :: "nat \<Rightarrow> state \<Rightarrow> state option" where
  "init_tasks_body index s =
     Option.bind (add_task 0 ADC_TASK 0 100 (slot_upd index (\<lambda>t. t\<lparr>task_number := 0\<rparr>) s))
       (add_task 1 FREQ_TASK 50 100)"

definition init_tasks :: "state \<Rightarrow> state option" where
  "init_tasks s =
     fold (\<lambda>index r. Option.bind r (init_tasks_body index)) [0..<TASK_MAX] (Some s)"

section \<open>Task bodies\<close>

text \<open>
  \<^verbatim>\<open>task_1\<close> (lines 204 to 211). \<open>ADSC\<close> is the position of the start-conversion bit
  in \<^verbatim>\<open>ADCSRA\<close>, from the device header of avr-libc.
\<close>

definition ADSC :: nat where
  "ADSC = 6"

definition task_1 :: "state \<Rightarrow> state" where
  "task_1 s =
     (let s1 = s\<lparr>ADMUX := (ADMUX s AND 0xF0) OR (0x00 AND 0x0F)\<rparr>
      in s1\<lparr>ADCSRA := ADCSRA s1 OR push_bit ADSC 1\<rparr>)"

text \<open>
  \<^verbatim>\<open>send_string_direct\<close> (lines 159 to 166). A C string is a list of characters; the
  loop stops at the first NUL character, or at the end of the list for a string literal,
  whose terminator is not written out. The inner loop waits for the transmitter to raise
  \<^verbatim>\<open>UDRE0\<close>; the transmitter is taken to become ready, so each character is written to
  \<^verbatim>\<open>UDR0\<close> in turn.
\<close>

fun send_string_direct :: "string \<Rightarrow> state \<Rightarrow> state" where
  "send_string_direct [] s = s"
| "send_string_direct (c # str) s =
     (if c = CHR 0x00 then s
      else send_string_direct str (s\<lparr>UDR0_sent := UDR0_sent s @ [c]\<rparr>))"

definition msg :: string where
  "msg = ''Frequency is ''"

definition end_msg :: string where
  "end_msg = '' Hz'' @ [CHR 0x0D, CHR 0x0A]"

text \<open>
  The \<^verbatim>\<open>do \<dots> while\<close> loop of \<^verbatim>\<open>task_2\<close> (lines 226 to 229). It works on the global
  \<^verbatim>\<open>conversion_result\<close> itself. \<open>str\<close> is the part of the local array \<^verbatim>\<open>str[10]\<close>
  written so far, so its length is the counter \<^verbatim>\<open>i\<close>. The digit is computed in 16-bit
  unsigned arithmetic and stored into a \<^verbatim>\<open>char\<close>, which keeps the low eight bits.
\<close>

function convert_loop :: "state \<Rightarrow> string \<Rightarrow> state \<times> string" where
  "convert_loop s str =
     (if 0 < conversion_result s div 10
      then convert_loop (s\<lparr>conversion_result := conversion_result s div 10\<rparr>)
             (str @ [char_of (unat (conversion_result s mod 10 + of_char CHR ''0''))])
      else (s\<lparr>conversion_result := conversion_result s div 10\<rparr>,
            str @ [char_of (unat (conversion_result s mod 10 + of_char CHR ''0''))]))"
  by pat_completeness auto
termination
proof (relation "measure (\<lambda>(s, str). unat (conversion_result s))")
  show "wf (measure (\<lambda>(s, str). unat (conversion_result s)))"
    by simp
next
  fix s :: state and str :: string
  assume "0 < conversion_result s div 10"
  then have "0 < unat (conversion_result s) div 10"
    by (simp add: word_less_nat_alt unat_div)
  then have "unat (conversion_result s) div 10 < unat (conversion_result s)"
    by simp
  then show "((s\<lparr>conversion_result := conversion_result s div 10\<rparr>,
               str @ [char_of (unat (conversion_result s mod 10 + of_char CHR ''0''))]),
              (s, str)) \<in> measure (\<lambda>(s, str). unat (conversion_result s))"
    by (simp add: unat_div)
qed

text \<open>
  The reversal loop (lines 235 to 239), which swaps \<^verbatim>\<open>str[j]\<close> and \<^verbatim>\<open>str[k]\<close> while
  \<open>j < k\<close>. Both indices stay inside the written part of the array.
\<close>

function reverse_loop :: "string \<Rightarrow> nat \<Rightarrow> nat \<Rightarrow> string" where
  "reverse_loop str j k =
     (if j < k
      then reverse_loop (str[j := str ! k, k := str ! j]) (j + 1) (k - 1)
      else str)"
  by pat_completeness auto
termination
  by (relation "measure (\<lambda>(str, j, k). k - j)") auto

text \<open>
  \<^verbatim>\<open>task_2\<close> (lines 215 to 243): the prefix, the digits, the suffix. After the first loop
  \<open>i\<close> is at least 1, so \<open>i - 1\<close> is the index of the last digit.
\<close>

definition task_2 :: "state \<Rightarrow> state" where
  "task_2 s =
     (let s1 = send_string_direct msg s;
          (s2, str) = convert_loop s1 [];
          i = length str;
          str1 = str @ [CHR 0x00];
          str2 = reverse_loop str1 0 (i - 1);
          s3 = send_string_direct str2 s2
      in send_string_direct end_msg s3)"

section \<open>Task dispatcher\<close>

text \<open>
  \<^verbatim>\<open>task_manager\<close> (lines 247 to 261). Besides the state, the model returns the calls of
  task bodies made during the pass, in order, each with the index of the slot it was made
  for, so that how often a body is invoked can be stated.
\<close>

datatype task_body = Task_1 | Task_2

type_synonym calls = "(nat \<times> task_body) list"

definition task_manager_slot :: "nat \<Rightarrow> state \<times> calls \<Rightarrow> state \<times> calls" where
  "task_manager_slot index = (\<lambda>(s, cs).
     if task_number (task_list s index) \<noteq> 0 then
       (if 0 <s run (task_list s index) then
          (let (s1, cs1) =
                 (if task_number (task_list s index) = ADC_TASK
                  then (task_1 s, cs @ [(index, Task_1)])
                  else if task_number (task_list s index) = FREQ_TASK
                  then (task_2 s, cs @ [(index, Task_2)])
                  else (s, cs))
           in (slot_upd index (\<lambda>t. t\<lparr>run := run t - 1\<rparr>) s1, cs1))
        else (s, cs))
     else (s, cs))"

definition task_manager_calls :: "state \<Rightarrow> state \<times> calls" where
  "task_manager_calls s = fold task_manager_slot [0..<TASK_MAX] (s, [])"

definition task_manager :: "state \<Rightarrow> state" where
  "task_manager s = fst (task_manager_calls s)"

section \<open>Sleep\<close>

text \<open>
  The macros of \<^verbatim>\<open>avr/sleep.h\<close> and \<^verbatim>\<open>avr/interrupt.h\<close> that \<^verbatim>\<open>go_sleep\<close> uses,
  with the bit positions of the sleep mode control register from the device header:
  \<open>SE\<close> is bit 0 and the mode bits \<open>SM0\<close> to \<open>SM2\<close> are bits 1 to 3; standby is mode 6.
\<close>

definition SE :: nat where
  "SE = 0"

definition SLEEP_MODE_STANDBY :: uint8_t where
  "SLEEP_MODE_STANDBY = push_bit 1 0x06"

definition set_sleep_mode :: "uint8_t \<Rightarrow> state \<Rightarrow> state" where
  "set_sleep_mode mode s =
     s\<lparr>SMCR := (SMCR s AND NOT (push_bit 1 1 OR push_bit 2 1 OR push_bit 3 1)) OR mode\<rparr>"

definition cli :: "state \<Rightarrow> state" where
  "cli s = s\<lparr>SREG_I := False\<rparr>"

definition sei :: "state \<Rightarrow> state" where
  "sei s = s\<lparr>SREG_I := True\<rparr>"

definition sleep_enable :: "state \<Rightarrow> state" where
  "sleep_enable s = s\<lparr>SMCR := SMCR s OR push_bit SE 1\<rparr>"

definition sleep_disable :: "state \<Rightarrow> state" where
  "sleep_disable s = s\<lparr>SMCR := SMCR s AND NOT (push_bit SE 1)\<rparr>"

definition sleep_cpu :: "state \<Rightarrow> state" where
  "sleep_cpu s = s\<lparr>cpu_halted := True\<rparr>"

text \<open>
  \<^verbatim>\<open>go_sleep\<close> (lines 265 to 279) in its two halves: up to and including the sleep
  instruction, and from the instruction after it to the return. Between them the pin
  change interrupt wakes the processor and its handler \<^verbatim>\<open>ISR(PCINT2_vect)\<close> (lines 283
  to 286), whose body is empty, runs.
\<close>

definition go_sleep_entry :: "state \<Rightarrow> state" where
  "go_sleep_entry s =
     sleep_cpu (sei (sleep_enable (cli (set_sleep_mode SLEEP_MODE_STANDBY s))))"

definition PCINT2_vect :: "state \<Rightarrow> state" where
  "PCINT2_vect s = s"

definition wake :: "state \<Rightarrow> state" where
  "wake s = PCINT2_vect (s\<lparr>cpu_halted := False\<rparr>)"

definition go_sleep_resume :: "state \<Rightarrow> state" where
  "go_sleep_resume s = sleep_disable s"

definition go_sleep :: "state \<Rightarrow> state" where
  "go_sleep s = go_sleep_resume (wake (go_sleep_entry s))"

section \<open>Notions the properties are stated with\<close>

text \<open>
  The decimal numeral of a natural number as the specification words it: decimal digits,
  most significant first, no leading zeros (and the single digit 0 for zero).
\<close>

fun spec_decimal :: "nat \<Rightarrow> string" where
  "spec_decimal n =
     (if n < 10 then [''0123456789'' ! n]
      else spec_decimal (n div 10) @ [''0123456789'' ! (n mod 10)])"

text \<open>The bytes one run of the reporting task, started in \<open>s\<close>, writes to the USART.\<close>

definition report_of :: "state \<Rightarrow> string" where
  "report_of s = drop (length (UDR0_sent s)) (UDR0_sent (task_2 s))"

text \<open>
  A slot that the dispatcher serves (the tests of lines 252 and 253), and the task body
  that the chain of comparisons in lines 255 and 256 associates with a task number.
\<close>

definition dispatchable :: "task \<Rightarrow> bool" where
  "dispatchable t = (task_number t \<noteq> 0 \<and> 0 <s run t)"

definition body_of :: "uint8_t \<Rightarrow> task_body option" where
  "body_of n =
     (if n = ADC_TASK then Some Task_1 else if n = FREQ_TASK then Some Task_2 else None)"

text \<open>
  One tick followed by one pass of the dispatcher, which is how the program runs when
  the main loop is faster than the tick. \<open>run_incremented index s\<close> says that a tick in
  state \<open>s\<close> increments the pending-run count of slot \<open>index\<close>, and
  \<open>made_runnable_at n index s\<close> that the \<open>n\<close>-th tick after state \<open>s\<close> does
  (\<open>n\<close> counts from 1).
\<close>

definition tick_cycle :: "state \<Rightarrow> state" where
  "tick_cycle s = task_manager (update s)"

definition run_incremented :: "nat \<Rightarrow> state \<Rightarrow> bool" where
  "run_incremented index s =
     (run (task_list (update s) index) = run (task_list s index) + 1)"

definition made_runnable_at :: "nat \<Rightarrow> nat \<Rightarrow> state \<Rightarrow> bool" where
  "made_runnable_at n index s = run_incremented index ((tick_cycle ^^ (n - 1)) s)"

text \<open>
  What one tick does to one entry of the table (the body of the loop of \<^verbatim>\<open>update\<close>
  read on the entry alone), what one pass of the dispatcher does to it, and both in a
  row. The lemmas \<open>task_list_update\<close> and \<open>task_list_task_manager\<close> below show that
  the program does this to every slot.
\<close>

definition tick_task :: "task \<Rightarrow> task" where
  "tick_task t =
     (if task_number t \<noteq> 0 then
        (if delay t = 0 then
           (if interval t \<noteq> 0 then t\<lparr>run := run t + 1, delay := interval t\<rparr>
            else t\<lparr>run := run t + 1\<rparr>)
         else t\<lparr>delay := delay t - 1\<rparr>)
      else t)"

definition serve_task :: "task \<Rightarrow> task" where
  "serve_task t = (if dispatchable t then t\<lparr>run := run t - 1\<rparr> else t)"

definition cycle_task :: "task \<Rightarrow> task" where
  "cycle_task t = serve_task (tick_task t)"

text \<open>
  The calls of task bodies one pass makes for the slot \<open>index\<close> holding \<open>t\<close>, and the
  function of the program behind each name of a task body.
\<close>

definition slot_calls :: "nat \<Rightarrow> task \<Rightarrow> calls" where
  "slot_calls index t =
     (if dispatchable t
      then (case body_of (task_number t) of Some b \<Rightarrow> [(index, b)] | None \<Rightarrow> [])
      else [])"

definition exec_body :: "task_body \<Rightarrow> state \<Rightarrow> state" where
  "exec_body b = (case b of Task_1 \<Rightarrow> task_1 | Task_2 \<Rightarrow> task_2)"

text \<open>
  The remaining delay of a task with interval \<open>k\<close> over one tick, as a natural number:
  a delay of zero is reloaded with the interval, any other is counted down.
\<close>

definition delay_step :: "nat \<Rightarrow> nat \<Rightarrow> nat" where
  "delay_step k x = (if x = 0 then k else x - 1)"

text \<open>
  The recursive equations of the loops are unfolded by hand in the proofs below.
\<close>

declare spec_decimal.simps [simp del]
declare convert_loop.simps [simp del]
declare reverse_loop.simps [simp del]

section \<open>Properties of the conversion completion handler\<close>

lemma ADC_vect_conversion_result:
  "conversion_result (ADC_vect r s) = (if r < 50 then 50 else if r > 1000 then 1000 else r)"
  by (simp add: ADC_vect_def Let_def)

lemma unat_clamp:
  "unat (if r < 50 then 50 else if r > 1000 then 1000 else (r :: uint16_t)) =
     spec_clamp (unat r)"
  by (simp add: spec_clamp_def word_less_nat_alt)

lemma ADC_vect_frequency_control:
  "frequency_control (ADC_vect r s) = 124 + (2375 * conversion_result (ADC_vect r s)) div 1000"
  by (simp add: ADC_vect_def Let_def)

text \<open>
  What the handler computes, read as natural numbers: the product is reduced modulo
  \<open>2 ^ 16\<close> before it is divided.
\<close>

lemma ADC_vect_unat:
  "unat (frequency_control (ADC_vect r s)) =
     124 + (2375 * spec_clamp (unat r) mod 65536) div 1000"
proof -
  let ?c = "conversion_result (ADC_vect r s)"
  have c: "unat ?c = spec_clamp (unat r)"
    by (simp only: ADC_vect_conversion_result unat_clamp)
  have m: "unat (2375 * ?c) = (2375 * spec_clamp (unat r)) mod 65536"
    by (simp add: unat_word_ariths c)
  have d: "unat ((2375 * ?c) div 1000) = (2375 * spec_clamp (unat r) mod 65536) div 1000"
    by (simp only: unat_div m) simp
  have "(2375 * spec_clamp (unat r) mod 65536) div 1000 \<le> 65535 div 1000"
    by (rule div_le_mono) (simp add: less_Suc_eq_le [symmetric])
  then have "124 + (2375 * spec_clamp (unat r) mod 65536) div 1000 < 65536"
    by simp
  then show ?thesis
    by (simp only: ADC_vect_frequency_control unat_word_ariths d) (simp add: c)
qed

lemma ADC_vect_upper: "unat (frequency_control (ADC_vect r s)) \<le> 189"
proof -
  have "(2375 * spec_clamp (unat r) mod 65536) div 1000 \<le> 65535 div 1000"
    by (rule div_le_mono) (simp add: less_Suc_eq_le [symmetric])
  then show ?thesis
    by (simp add: ADC_vect_unat)
qed

lemma ADC_vect_lower: "124 \<le> unat (frequency_control (ADC_vect r s))"
  by (simp add: ADC_vect_unat)

lemma spec_frequency_control_lower: "242 \<le> spec_frequency_control r"
  unfolding spec_frequency_control_def spec_clamp_def
  by (simp split: if_splits) arith

text \<open>
  Claim C1. The claim is that for every raw input \<open>r\<close> in \<open>[0, 1023]\<close> the handler
  sets the frequency control value to \<open>124 + (2499 - 124) * clamp r 50 1000 / 1000\<close>, and
  that \<open>r = 1023\<close> gives 2499. The code does not do that: at \<open>r = 1023\<close> the clamped
  value is 1000, the 16-bit product \<open>2375 * 1000\<close> is \<open>2375000 mod 65536 = 15704\<close>,
  and the handler stores \<open>124 + 15 = 139\<close>, where the formula of the claim gives 2499.
  For no input at all does the handler store the value of the formula: it stores at most
  189 and the formula gives at least 242.
\<close>

theorem ADC_vect_full_scale_is_139:
  "frequency_control (ADC_vect 1023 s) = 139 \<and>
   spec_frequency_control 1023 = 2499 \<and>
   unat (frequency_control (ADC_vect r s)) < spec_frequency_control (unat r)"
proof -
  have "frequency_control (ADC_vect 1023 s) = 139"
    by (simp add: ADC_vect_def Let_def)
  moreover have "spec_frequency_control 1023 = 2499"
    by (simp add: spec_frequency_control_def spec_clamp_def)
  moreover have "unat (frequency_control (ADC_vect r s)) < spec_frequency_control (unat r)"
    using ADC_vect_upper [of r s] spec_frequency_control_lower [of "unat r"] by linarith
  ultimately show ?thesis
    by blast
qed

section \<open>Properties of the reporting task\<close>

subsection \<open>The formatting loops\<close>

lemma digit_nat: "n < 10 \<Longrightarrow> char_of (n + 48 :: nat) = ''0123456789'' ! n"
proof -
  assume "n < 10"
  then have "n \<in> {0, 1, 2, 3, 4, 5, 6, 7, 8, 9}" by auto
  then show ?thesis by (auto simp: char_of_def bit_0)
qed

lemma digit_word:
  "char_of (unat ((w :: uint16_t) mod 10 + of_char CHR ''0'')) =
     ''0123456789'' ! (unat w mod 10)"
proof -
  have m: "unat (w mod 10) = unat w mod 10" by (simp add: unat_mod)
  have "unat w mod 10 < 10" by simp
  then have "unat w mod 10 + 48 < 65536" by linarith
  then have "unat (w mod 10) + unat (48 :: 16 word) < 2 ^ LENGTH(16)"
    by (simp add: m)
  then have "unat (w mod 10 + 48) = unat (w mod 10) + unat (48 :: 16 word)"
    by (simp only: unat_add_lem [THEN iffD1])
  then have "unat (w mod 10 + of_char CHR ''0'') = unat w mod 10 + 48"
    by (simp add: m)
  then show ?thesis
    by (simp only: digit_nat)
qed

text \<open>
  The first loop leaves the digits of the value in \<^verbatim>\<open>str\<close>, least significant
  first, and leaves 0 in \<^verbatim>\<open>conversion_result\<close>.
\<close>

lemma convert_loop_decimal:
  "convert_loop s str =
     (s\<lparr>conversion_result := 0\<rparr>, str @ rev (spec_decimal (unat (conversion_result s))))"
proof (induction s str rule: convert_loop.induct)
  case (1 s str)
  show ?case
  proof (cases "0 < conversion_result s div 10")
    case True
    then have "0 < unat (conversion_result s) div 10"
      by (simp add: word_less_nat_alt unat_div)
    then have ge: "\<not> unat (conversion_result s) < 10"
      by simp
    have "convert_loop s str =
        convert_loop (s\<lparr>conversion_result := conversion_result s div 10\<rparr>)
          (str @ [char_of (unat (conversion_result s mod 10 + of_char CHR ''0''))])"
      using True by (subst convert_loop.simps) simp
    also have "\<dots> =
        (s\<lparr>conversion_result := 0\<rparr>,
         (str @ [''0123456789'' ! (unat (conversion_result s) mod 10)]) @
           rev (spec_decimal (unat (conversion_result s) div 10)))"
      using 1 [OF True] by (simp only: digit_word) (simp add: unat_div)
    also have "\<dots> =
        (s\<lparr>conversion_result := 0\<rparr>,
         str @ rev (spec_decimal (unat (conversion_result s))))"
      using ge by (subst (2) spec_decimal.simps) simp
    finally show ?thesis .
  next
    case False
    then have z: "conversion_result s div 10 = 0"
      by (simp add: word_neq_0_conv [symmetric])
    have "unat (conversion_result s div 10) = unat (conversion_result s) div 10"
      by (simp add: unat_div)
    with z have lt: "unat (conversion_result s) < 10"
      by simp
    have "convert_loop s str = (s\<lparr>conversion_result := 0\<rparr>,
        str @ [char_of (unat (conversion_result s mod 10 + of_char CHR ''0''))])"
      using False z by (subst convert_loop.simps) simp
    also have "\<dots> =
        (s\<lparr>conversion_result := 0\<rparr>,
         str @ rev (spec_decimal (unat (conversion_result s))))"
      using lt by (simp only: digit_word) (simp add: spec_decimal.simps)
    finally show ?thesis .
  qed
qed

text \<open>
  The second loop reverses the part of the array between its two indices, here the
  digits, and leaves the terminator behind them in place.
\<close>

lemma reverse_loop_middle:
  "reverse_loop (as @ xs @ bs) (length as) (length as + length xs - 1) = as @ rev xs @ bs"
proof (induction "length xs" arbitrary: as xs bs rule: less_induct)
  case less
  show ?case
  proof (cases xs)
    case Nil
    then show ?thesis by (auto simp: reverse_loop.simps)
  next
    case (Cons x ys)
    show ?thesis
    proof (cases ys rule: rev_cases)
      case Nil
      with Cons show ?thesis by (auto simp: reverse_loop.simps)
    next
      case (snoc zs y)
      have lt: "length zs < length xs" using Cons snoc by simp
      have "reverse_loop (as @ xs @ bs) (length as) (length as + length xs - 1) =
          reverse_loop ((as @ [y]) @ zs @ ([x] @ bs))
            (length (as @ [y])) (length (as @ [y]) + length zs - 1)"
        using Cons snoc
        by (subst reverse_loop.simps) (simp add: nth_append list_update_append)
      also have "\<dots> = (as @ [y]) @ rev zs @ ([x] @ bs)"
        by (rule less [OF lt])
      finally show ?thesis using Cons snoc by simp
    qed
  qed
qed

lemma reverse_loop_buffer:
  "reverse_loop (str @ [c]) 0 (length str - 1) = rev str @ [c]"
  using reverse_loop_middle [of "[]" str "[c]"] by simp

subsection \<open>What the task transmits\<close>

lemma send_string_direct_conversion_result [simp]:
  "conversion_result (send_string_direct str s) = conversion_result s"
  by (induction str arbitrary: s) auto

lemma send_string_direct_append:
  "CHR 0x00 \<notin> set str \<Longrightarrow>
   send_string_direct (str @ rest) s =
     send_string_direct rest (s\<lparr>UDR0_sent := UDR0_sent s @ str\<rparr>)"
  by (induction str arbitrary: s) auto

lemma send_string_direct_literal:
  "CHR 0x00 \<notin> set str \<Longrightarrow>
   send_string_direct str s = s\<lparr>UDR0_sent := UDR0_sent s @ str\<rparr>"
  using send_string_direct_append [of str "[]" s] by simp

lemma send_string_direct_buffer:
  "CHR 0x00 \<notin> set str \<Longrightarrow>
   send_string_direct (str @ [CHR 0x00]) s = s\<lparr>UDR0_sent := UDR0_sent s @ str\<rparr>"
  using send_string_direct_append [of str "[CHR 0x00]" s] by simp

lemma spec_decimal_digits: "set (spec_decimal n) \<subseteq> set ''0123456789''"
proof (induction n rule: spec_decimal.induct)
  case (1 n)
  have d: "''0123456789'' ! m \<in> set ''0123456789''" if "m < 10" for m
    by (rule nth_mem) (use that in simp)
  show ?case
  proof (cases "n < 10")
    case True
    then show ?thesis
      using d [of n] by (subst spec_decimal.simps) simp
  next
    case False
    then show ?thesis
      using 1 d [of "n mod 10"] by (subst spec_decimal.simps) simp
  qed
qed

lemma spec_decimal_no_NUL: "CHR 0x00 \<notin> set (spec_decimal n)"
  using spec_decimal_digits [of n] by auto

lemma spec_decimal_not_Nil: "spec_decimal n \<noteq> []"
  by (subst spec_decimal.simps) simp

lemma spec_decimal_no_leading_zero: "0 < n \<Longrightarrow> hd (spec_decimal n) \<noteq> CHR ''0''"
proof (induction n rule: spec_decimal.induct)
  case (1 n)
  show ?case
  proof (cases "n < 10")
    case True
    with 1(2) have "n \<in> {1, 2, 3, 4, 5, 6, 7, 8, 9}" by auto
    then show ?thesis
      by (subst spec_decimal.simps) auto
  next
    case False
    then have "0 < n div 10" by simp
    with 1(1) False have "hd (spec_decimal (n div 10)) \<noteq> CHR ''0''" by simp
    then show ?thesis
      using False spec_decimal_not_Nil [of "n div 10"]
      by (subst spec_decimal.simps) simp
  qed
qed

lemma task_2_eq:
  "task_2 s = s\<lparr>conversion_result := 0,
       UDR0_sent := UDR0_sent s @ msg @ spec_decimal (unat (conversion_result s)) @ end_msg\<rparr>"
proof -
  let ?d = "spec_decimal (unat (conversion_result s))"
  let ?s1 = "send_string_direct msg s"
  have m: "CHR 0x00 \<notin> set msg"
    by (simp add: msg_def)
  have e: "CHR 0x00 \<notin> set end_msg"
    by (simp add: end_msg_def)
  have s1: "?s1 = s\<lparr>UDR0_sent := UDR0_sent s @ msg\<rparr>"
    by (rule send_string_direct_literal [OF m])
  have loop: "convert_loop ?s1 [] = (?s1\<lparr>conversion_result := 0\<rparr>, rev ?d)"
    by (simp add: convert_loop_decimal)
  have buf: "reverse_loop (rev ?d @ [CHR 0x00]) 0 (length (rev ?d) - 1) = ?d @ [CHR 0x00]"
    using reverse_loop_buffer [of "rev ?d" "CHR 0x00"] by simp
  have "task_2 s =
      send_string_direct end_msg
        (send_string_direct (?d @ [CHR 0x00]) (?s1\<lparr>conversion_result := 0\<rparr>))"
    unfolding task_2_def Let_def loop split_conv buf ..
  also have "\<dots> = send_string_direct end_msg
      (?s1\<lparr>conversion_result := 0, UDR0_sent := UDR0_sent ?s1 @ ?d\<rparr>)"
    by (simp add: send_string_direct_buffer [OF spec_decimal_no_NUL])
  also have "\<dots> =
      ?s1\<lparr>conversion_result := 0, UDR0_sent := UDR0_sent ?s1 @ ?d @ end_msg\<rparr>"
    by (simp add: send_string_direct_literal [OF e])
  also have "\<dots> =
      s\<lparr>conversion_result := 0, UDR0_sent := UDR0_sent s @ msg @ ?d @ end_msg\<rparr>"
    by (simp add: s1)
  finally show ?thesis .
qed

text \<open>
  A 16-bit value has at most five digits, so the digits and the terminator fit the ten
  characters of \<^verbatim>\<open>str\<close>.
\<close>

lemma spec_decimal_length: "n < 10 ^ Suc k \<Longrightarrow> length (spec_decimal n) \<le> Suc k"
proof (induction k arbitrary: n)
  case 0
  then show ?case by (simp add: spec_decimal.simps)
next
  case (Suc k)
  show ?case
  proof (cases "n < 10")
    case True
    then show ?thesis by (simp add: spec_decimal.simps)
  next
    case False
    from Suc.prems have "n div 10 < 10 ^ Suc k" by simp
    then have "length (spec_decimal (n div 10)) \<le> Suc k" by (rule Suc.IH)
    with False show ?thesis by (subst spec_decimal.simps) simp
  qed
qed

lemma convert_loop_fits: "length (snd (convert_loop s [])) + 1 \<le> 10"
proof -
  have "unat (conversion_result s) < 2 ^ LENGTH(16)" by (rule unsigned_less)
  then have "unat (conversion_result s) < 10 ^ Suc 4" by simp
  then have "length (spec_decimal (unat (conversion_result s))) \<le> Suc 4"
    by (rule spec_decimal_length)
  then show ?thesis by (simp add: convert_loop_decimal)
qed

lemma report_of_eq: "report_of s = msg @ spec_decimal (unat (conversion_result s)) @ end_msg"
  by (simp add: report_of_def task_2_eq)

text \<open>
  Claim C7, as amended. The claim is that every report is \<open>''Frequency is ''\<close>, then the
  current frequency control value in decimal, then \<open>'' Hz''\<close>, carriage return and line
  feed. The number the task formats is not \<^verbatim>\<open>frequency_control\<close> but the shared
  variable \<^verbatim>\<open>conversion_result\<close>, which after a conversion holds the ADC reading clamped
  to \<open>[50, 1000]\<close>. The amended claim: every report is \<open>''Frequency is ''\<close>, then the
  value \<^verbatim>\<open>conversion_result\<close> holds when the task starts, as decimal digits with no
  leading zeros, most significant digit first, then \<open>'' Hz''\<close>, carriage return and
  line feed.
\<close>

theorem task_2_report:
  "UDR0_sent (task_2 s) =
     UDR0_sent s @ ''Frequency is '' @ spec_decimal (unat (conversion_result s)) @
       '' Hz'' @ [CHR 0x0D, CHR 0x0A]"
  by (simp add: task_2_eq msg_def end_msg_def)

text \<open>
  Claim C7 as stated fails after a conversion of the raw value 500: the frequency control
  value is then 131 and the report reads 500.
\<close>

theorem task_2_report_not_frequency_control:
  "UDR0_sent (task_2 (ADC_vect 500 reset_state)) =
     ''Frequency is 500 Hz'' @ [CHR 0x0D, CHR 0x0A] \<and>
   frequency_control (ADC_vect 500 reset_state) = 131 \<and>
   UDR0_sent (task_2 (ADC_vect 500 reset_state)) \<noteq>
     ''Frequency is '' @
       spec_decimal (unat (frequency_control (ADC_vect 500 reset_state))) @
       '' Hz'' @ [CHR 0x0D, CHR 0x0A]"
proof -
  have c: "conversion_result (ADC_vect 500 reset_state) = 500"
    by (simp add: ADC_vect_def Let_def)
  have f: "frequency_control (ADC_vect 500 reset_state) = 131"
    by (simp add: ADC_vect_def Let_def)
  have u: "UDR0_sent (ADC_vect 500 reset_state) = []"
    by (simp add: ADC_vect_def Let_def reset_state_def)
  have d: "spec_decimal 500 = ''500''" "spec_decimal 131 = ''131''"
    by (simp_all add: spec_decimal.simps)
  show ?thesis
    by (simp add: task_2_eq c f u msg_def end_msg_def d)
qed

text \<open>
  Claim C4. The claim is that two consecutive runs of the reporting task, with nothing
  the task reads changed between them, transmit the same bytes. The code does not do
  that: after a conversion of the raw value 1023 a run transmits
  \<open>''Frequency is 1000 Hz''\<close>, and a run started in the state that any run has left
  transmits \<open>''Frequency is 0 Hz''\<close>, while a run leaves the frequency control value
  as it was.
\<close>

theorem task_2_twice_differs:
  "report_of (ADC_vect 1023 reset_state) =
     ''Frequency is 1000 Hz'' @ [CHR 0x0D, CHR 0x0A] \<and>
   report_of (task_2 s) = ''Frequency is 0 Hz'' @ [CHR 0x0D, CHR 0x0A] \<and>
   frequency_control (task_2 s) = frequency_control s"
proof -
  have c: "conversion_result (ADC_vect 1023 reset_state) = 1000"
    by (simp add: ADC_vect_def Let_def)
  have d: "spec_decimal 1000 = ''1000''" "spec_decimal 0 = ''0''"
    by (simp_all add: spec_decimal.simps)
  show ?thesis
    by (simp add: report_of_eq task_2_eq c msg_def end_msg_def d)
qed

text \<open>
  Claim C9. After every run of the reporting task the shared variable
  \<^verbatim>\<open>conversion_result\<close> is 0: the formatting loop divides the variable itself by ten
  until nothing is left of it.
\<close>

theorem task_2_clears_conversion_result:
  "conversion_result (task_2 s) = 0"
  by (simp add: task_2_def Let_def convert_loop_decimal)

section \<open>Properties of sleep and of initialisation\<close>

text \<open>
  Claim C8. One pass through \<^verbatim>\<open>go_sleep\<close>, with the wake interrupt and its handler
  between the sleep instruction and the return, leaves the task table as it was: every
  field of every entry.
\<close>

theorem go_sleep_keeps_task_list:
  "task_list (go_sleep s) = task_list s"
  by (simp add: go_sleep_def go_sleep_resume_def wake_def PCINT2_vect_def go_sleep_entry_def
      sleep_disable_def sleep_cpu_def sei_def cli_def sleep_enable_def set_sleep_mode_def)

lemma upt_TASK_MAX: "[0..<TASK_MAX] = [0, 1]"
  by (simp add: TASK_MAX_def upt_conv_Cons)

text \<open>
  Claim C10. \<^verbatim>\<open>init_tasks\<close> returns, and afterwards slot 0 holds task number
  \<open>ADC_TASK\<close> (1), delay 0 and interval 100, and slot 1 holds task number \<open>FREQ_TASK\<close>
  (2), delay 50 and interval 100, whatever the table held before. The pending-run
  counts are the ones the table held before.
\<close>

theorem init_tasks_table:
  "\<exists>s'. init_tasks s = Some s' \<and>
     task_number (task_list s' 0) = ADC_TASK \<and> ADC_TASK = 1 \<and>
     delay (task_list s' 0) = 0 \<and> interval (task_list s' 0) = 100 \<and>
     task_number (task_list s' 1) = FREQ_TASK \<and> FREQ_TASK = 2 \<and>
     delay (task_list s' 1) = 50 \<and> interval (task_list s' 1) = 100 \<and>
     run (task_list s' 0) = run (task_list s 0) \<and>
     run (task_list s' 1) = run (task_list s 1)"
  unfolding init_tasks_def upt_TASK_MAX
  by (simp add: init_tasks_body_def add_task_def TASK_MAX_def slot_upd_def ADC_TASK_def
      FREQ_TASK_def)

section \<open>Properties of the dispatcher\<close>

lemma task_list_task_1 [simp]: "task_list (task_1 s) = task_list s"
  by (simp add: task_1_def Let_def)

lemma task_list_task_2 [simp]: "task_list (task_2 s) = task_list s"
  by (simp add: task_2_eq)

lemma task_manager_slot_task_list:
  "task_list (fst (task_manager_slot index (s, cs))) =
     (task_list s)(index := serve_task (task_list s index))"
  by (auto simp: task_manager_slot_def serve_task_def dispatchable_def slot_upd_def Let_def)

lemma task_manager_slot_calls:
  "snd (task_manager_slot index (s, cs)) = cs @ slot_calls index (task_list s index)"
  by (auto simp: task_manager_slot_def slot_calls_def dispatchable_def body_of_def Let_def)

lemma task_manager_calls_unfold:
  "task_manager_calls s = task_manager_slot 1 (task_manager_slot 0 (s, []))"
  unfolding task_manager_calls_def upt_TASK_MAX by simp

text \<open>
  A pass serves every slot on the values the slot held when the pass began: the task
  bodies and the service of the other slot do not touch it.
\<close>

lemma task_list_task_manager:
  assumes "index < TASK_MAX"
  shows "task_list (task_manager s) index = serve_task (task_list s index)"
proof -
  from assms have i: "index = 0 \<or> index = 1"
    by (auto simp: TASK_MAX_def)
  obtain s1 cs1 where p: "task_manager_slot 0 (s, []) = (s1, cs1)"
    by force
  have t1: "task_list s1 = (task_list s)(0 := serve_task (task_list s 0))"
    using task_manager_slot_task_list [of 0 s "[]"] by (simp add: p)
  have "task_list (task_manager s) = (task_list s1)(1 := serve_task (task_list s1 1))"
    by (simp add: task_manager_def task_manager_calls_unfold p task_manager_slot_task_list)
  then show ?thesis
    using i t1 by auto
qed

lemma task_manager_calls_slot_calls:
  "snd (task_manager_calls s) = slot_calls 0 (task_list s 0) @ slot_calls 1 (task_list s 1)"
proof -
  obtain s1 cs1 where p: "task_manager_slot 0 (s, []) = (s1, cs1)"
    by force
  have t1: "task_list s1 = (task_list s)(0 := serve_task (task_list s 0))"
    using task_manager_slot_task_list [of 0 s "[]"] by (simp add: p)
  have c1: "cs1 = slot_calls 0 (task_list s 0)"
    using task_manager_slot_calls [of 0 s "[]"] by (simp add: p)
  show ?thesis
    by (simp only: task_manager_calls_unfold p task_manager_slot_calls) (simp add: t1 c1)
qed

lemma filter_slot_calls:
  "filter (\<lambda>c. fst c = i) (slot_calls j t) = (if i = j then slot_calls j t else [])"
  unfolding slot_calls_def
  by (cases "dispatchable t"; cases "body_of (task_number t)"; simp)

text \<open>
  The calls the model records are the calls the program makes: the state after a pass is
  the state before it with the recorded bodies run in the recorded order and the two
  slots served.
\<close>

lemma slot_upd_task_1: "task_1 (slot_upd i f s) = slot_upd i f (task_1 s)"
  by (simp add: task_1_def slot_upd_def Let_def)

lemma slot_upd_task_2: "task_2 (slot_upd i f s) = slot_upd i f (task_2 s)"
  by (simp add: task_2_eq slot_upd_def)

lemma exec_body_slot_upd: "exec_body b (slot_upd i f s) = slot_upd i f (exec_body b s)"
  by (cases b) (simp_all add: exec_body_def slot_upd_task_1 slot_upd_task_2)

lemma task_list_exec_body [simp]: "task_list (exec_body b s) = task_list s"
  by (cases b) (simp_all add: exec_body_def)

lemma fold_exec_body_slot_upd:
  "fold exec_body bs (slot_upd i f s) = slot_upd i f (fold exec_body bs s)"
  by (induction bs arbitrary: s) (simp_all add: exec_body_slot_upd)

lemma task_list_fold_exec_body [simp]: "task_list (fold exec_body bs s) = task_list s"
  by (induction bs arbitrary: s) simp_all

lemma task_manager_slot_state:
  "fst (task_manager_slot index (s, cs)) =
     slot_upd index serve_task (fold exec_body (map snd (slot_calls index (task_list s index))) s)"
proof (cases "dispatchable (task_list s index)")
  case True
  then show ?thesis
    by (auto simp: task_manager_slot_def slot_calls_def body_of_def dispatchable_def
        serve_task_def exec_body_def slot_upd_def Let_def)
next
  case False
  then have "slot_upd index serve_task s = s"
    by (simp add: slot_upd_def serve_task_def)
  with False show ?thesis
    by (auto simp: task_manager_slot_def slot_calls_def dispatchable_def)
qed

lemma task_manager_state:
  "task_manager s =
     slot_upd 1 serve_task (slot_upd 0 serve_task
       (fold exec_body (map snd (snd (task_manager_calls s))) s))"
proof -
  obtain s1 cs1 where p: "task_manager_slot 0 (s, []) = (s1, cs1)"
    by force
  have s1: "s1 = slot_upd 0 serve_task (fold exec_body (map snd (slot_calls 0 (task_list s 0))) s)"
    using task_manager_slot_state [of 0 s "[]"] by (simp add: p)
  have t1: "task_list s1 1 = task_list s 1"
    by (simp add: s1 slot_upd_def)
  have "task_manager s = fst (task_manager_slot 1 (s1, cs1))"
    by (simp add: task_manager_def task_manager_calls_unfold p)
  also have "\<dots> =
      slot_upd 1 serve_task (fold exec_body (map snd (slot_calls 1 (task_list s 1))) s1)"
    by (simp only: task_manager_slot_state t1)
  also have "\<dots> = slot_upd 1 serve_task (slot_upd 0 serve_task
       (fold exec_body
          (map snd (slot_calls 0 (task_list s 0) @ slot_calls 1 (task_list s 1))) s))"
    by (simp add: s1 fold_exec_body_slot_upd)
  finally show ?thesis
    by (simp only: task_manager_calls_slot_calls)
qed

lemma sint_run_decrement:
  fixes r :: int8_t
  assumes "0 <s r"
  shows "sint (r - 1) = sint r - 1"
proof -
  have pos: "0 < sint r"
    using assms by (simp add: word_sless_alt)
  have "sint r < 2 ^ (LENGTH(8) - 1)"
    by (rule sint_lt)
  then have up: "sint r < 128"
    by simp
  have "sint (r - 1) = signed_take_bit (LENGTH(8) - 1) (sint r - sint (1 :: int8_t))"
    by (rule sint_word_ariths)
  also have "\<dots> = signed_take_bit 7 (sint r - 1)"
    by simp
  also have "\<dots> = sint r - 1"
    using pos up by (simp add: signed_take_bit_int_eq_self)
  finally show ?thesis .
qed

text \<open>What a tick does to a slot.\<close>

lemma task_list_update_slot:
  "task_list (update_slot index s) = (task_list s)(index := tick_task (task_list s index))"
  by (auto simp: update_slot_def tick_task_def slot_upd_def Let_def)

lemma task_list_update:
  "index < TASK_MAX \<Longrightarrow> task_list (update s) index = tick_task (task_list s index)"
  unfolding update_def upt_TASK_MAX
  by (auto simp: task_list_update_slot TASK_MAX_def less_Suc_eq numeral_2_eq_2)

lemma init_tasks_reset_state:
  "task_list (the (init_tasks reset_state)) 0 =
     \<lparr>task_number = 1, delay = 0, interval = 100, run = 0\<rparr>"
  "task_list (the (init_tasks reset_state)) (Suc 0) =
     \<lparr>task_number = 2, delay = 50, interval = 100, run = 0\<rparr>"
  unfolding init_tasks_def upt_TASK_MAX
  by (simp_all add: init_tasks_body_def add_task_def TASK_MAX_def slot_upd_def ADC_TASK_def
      FREQ_TASK_def reset_state_def)

lemma first_tick_state:
  "task_list (update (the (init_tasks reset_state))) 0 =
     \<lparr>task_number = 1, delay = 100, interval = 100, run = 1\<rparr>"
  "task_list (update (the (init_tasks reset_state))) (Suc 0) =
     \<lparr>task_number = 2, delay = 49, interval = 100, run = 0\<rparr>"
  by (simp_all add: task_list_update TASK_MAX_def init_tasks_reset_state tick_task_def)

lemma body_of_cases:
  "body_of ADC_TASK = Some Task_1"
  "body_of FREQ_TASK = Some Task_2"
  "n \<noteq> ADC_TASK \<Longrightarrow> n \<noteq> FREQ_TASK \<Longrightarrow> body_of n = None"
  by (simp_all add: body_of_def ADC_TASK_def FREQ_TASK_def)

lemma slot_upd_cong:
  "f (task_list s i) = g (task_list s i) \<Longrightarrow> slot_upd i f s = slot_upd i g s"
  by (simp add: slot_upd_def)

lemma slot_upd_same: "f (task_list s i) = task_list s i \<Longrightarrow> slot_upd i f s = s"
  by (simp add: slot_upd_def)

lemma ADCSRA_slot_upd [simp]: "ADCSRA (slot_upd i f s) = ADCSRA s"
  by (simp add: slot_upd_def)

lemma ADMUX_slot_upd [simp]: "ADMUX (slot_upd i f s) = ADMUX s"
  by (simp add: slot_upd_def)

lemma UDR0_sent_slot_upd [simp]: "UDR0_sent (slot_upd i f s) = UDR0_sent s"
  by (simp add: slot_upd_def)

lemma registers_update_slot [simp]:
  "ADCSRA (update_slot i s) = ADCSRA s"
  "ADMUX (update_slot i s) = ADMUX s"
  "UDR0_sent (update_slot i s) = UDR0_sent s"
  by (simp_all add: update_slot_def Let_def)

lemma registers_update:
  "ADCSRA (update s) = ADCSRA s"
  "ADMUX (update s) = ADMUX s"
  "UDR0_sent (update s) = UDR0_sent s"
  unfolding update_def upt_TASK_MAX by simp_all

lemma registers_init_tasks_reset_state:
  "ADCSRA (the (init_tasks reset_state)) = 0"
  "ADMUX (the (init_tasks reset_state)) = 0"
  "UDR0_sent (the (init_tasks reset_state)) = []"
  unfolding init_tasks_def upt_TASK_MAX
  by (simp_all add: init_tasks_body_def add_task_def TASK_MAX_def reset_state_def)

lemma unknown_task_state:
  "task_list (update (the (add_task 0 3 0 0 reset_state))) 0 =
     \<lparr>task_number = 3, delay = 0, interval = 0, run = 1\<rparr>"
  "task_list (update (the (add_task 0 3 0 0 reset_state))) (Suc 0) =
     \<lparr>task_number = 0, delay = 0, interval = 0, run = 0\<rparr>"
  by (simp_all add: task_list_update TASK_MAX_def add_task_def slot_upd_def reset_state_def
      tick_task_def)

lemma first_tick_calls:
  "snd (task_manager_calls (update (the (init_tasks reset_state)))) = [(0, Task_1)]"
  by (simp add: task_manager_calls_slot_calls first_tick_state slot_calls_def dispatchable_def
      word_sless_alt body_of_def ADC_TASK_def)

lemma unknown_task_calls:
  "snd (task_manager_calls (update (the (add_task 0 3 0 0 reset_state)))) = []"
  by (simp add: task_manager_calls_slot_calls unknown_task_state slot_calls_def
      dispatchable_def word_sless_alt body_of_def ADC_TASK_def FREQ_TASK_def)

text \<open>
  Claim C6, as amended. The claim is that a pass of the dispatcher invokes, for every
  slot with a non-zero task number and a pending-run count above zero, the task body of
  that task number exactly once and decrements the count by exactly one, and never
  dispatches a slot with task number 0. Only the task numbers \<open>ADC_TASK\<close> and
  \<open>FREQ_TASK\<close> have a body (lines 255 and 256). The amended claim, for every slot of
  the table in one pass: if the task number is not zero and the pending-run count is
  above zero, the count goes down by exactly one and nothing else in the slot changes;
  the pass then calls \<^verbatim>\<open>task_1\<close> exactly once for the slot if its task number is
  \<open>ADC_TASK\<close>, \<^verbatim>\<open>task_2\<close> exactly once if it is \<open>FREQ_TASK\<close>, and no body for any
  other task number; a slot with task number 0 or with no pending run is left as it is
  and nothing is called for it. The calls are calls of the program's functions: the
  state after the pass is the state before it with \<^verbatim>\<open>task_1\<close> and \<^verbatim>\<open>task_2\<close> run as
  often and in the order stated, and the served slots' counts decremented.
\<close>

theorem task_manager_serves_each_slot_once:
  assumes "index < TASK_MAX"
  shows "(dispatchable (task_list s index) \<longrightarrow>
            task_list (task_manager s) index =
              (task_list s index)\<lparr>run := run (task_list s index) - 1\<rparr> \<and>
            sint (run (task_list (task_manager s) index)) =
              sint (run (task_list s index)) - 1) \<and>
         (dispatchable (task_list s index) \<and> task_number (task_list s index) = ADC_TASK \<longrightarrow>
            filter (\<lambda>c. fst c = index) (snd (task_manager_calls s)) = [(index, Task_1)]) \<and>
         (dispatchable (task_list s index) \<and> task_number (task_list s index) = FREQ_TASK \<longrightarrow>
            filter (\<lambda>c. fst c = index) (snd (task_manager_calls s)) = [(index, Task_2)]) \<and>
         (dispatchable (task_list s index) \<and> task_number (task_list s index) \<noteq> ADC_TASK \<and>
          task_number (task_list s index) \<noteq> FREQ_TASK \<longrightarrow>
            filter (\<lambda>c. fst c = index) (snd (task_manager_calls s)) = []) \<and>
         (\<not> dispatchable (task_list s index) \<longrightarrow>
            task_list (task_manager s) index = task_list s index \<and>
            filter (\<lambda>c. fst c = index) (snd (task_manager_calls s)) = []) \<and>
         (task_number (task_list s index) = 0 \<longrightarrow> \<not> dispatchable (task_list s index)) \<and>
         task_manager s =
           slot_upd 1 serve_task (slot_upd 0 serve_task
             (fold (\<lambda>b. case b of Task_1 \<Rightarrow> task_1 | Task_2 \<Rightarrow> task_2)
                (map snd (snd (task_manager_calls s))) s))"
proof -
  let ?t = "task_list s index"
  from assms have i: "index = 0 \<or> index = 1"
    by (auto simp: TASK_MAX_def)
  have t: "task_list (task_manager s) index = serve_task ?t"
    by (rule task_list_task_manager [OF assms])
  have f: "filter (\<lambda>c. fst c = index) (snd (task_manager_calls s)) = slot_calls index ?t"
    using i by (auto simp: task_manager_calls_slot_calls filter_slot_calls)
  have f1: "slot_calls index ?t = [(index, Task_1)]"
    if "dispatchable ?t" "task_number ?t = ADC_TASK"
    using that by (simp add: slot_calls_def body_of_cases)
  have f2: "slot_calls index ?t = [(index, Task_2)]"
    if "dispatchable ?t" "task_number ?t = FREQ_TASK"
    using that by (simp add: slot_calls_def body_of_cases)
  have f3: "slot_calls index ?t = []"
    if "dispatchable ?t" "task_number ?t \<noteq> ADC_TASK" "task_number ?t \<noteq> FREQ_TASK"
    using that by (simp add: slot_calls_def body_of_cases)
  have fn: "slot_calls index ?t = []" if "\<not> dispatchable ?t"
    using that by (simp add: slot_calls_def)
  have r: "sint (run (serve_task ?t)) = sint (run ?t) - 1" if "dispatchable ?t"
    using that by (simp add: serve_task_def dispatchable_def sint_run_decrement)
  have a: "serve_task ?t = ?t\<lparr>run := run ?t - 1\<rparr>" if "dispatchable ?t"
    using that by (simp add: serve_task_def)
  have b: "serve_task ?t = ?t" if "\<not> dispatchable ?t"
    using that by (simp add: serve_task_def)
  have c: "\<not> dispatchable ?t" if "task_number ?t = 0"
    using that by (simp add: dispatchable_def)
  have e: "(\<lambda>b. case b of Task_1 \<Rightarrow> task_1 | Task_2 \<Rightarrow> task_2) = exec_body"
    by (rule ext) (simp add: exec_body_def)
  have st: "task_manager s =
      slot_upd 1 serve_task (slot_upd 0 serve_task
        (fold (\<lambda>b. case b of Task_1 \<Rightarrow> task_1 | Task_2 \<Rightarrow> task_2)
           (map snd (snd (task_manager_calls s))) s))"
    unfolding e by (rule task_manager_state)
  have slots: "(dispatchable ?t \<longrightarrow>
            task_list (task_manager s) index = ?t\<lparr>run := run ?t - 1\<rparr> \<and>
            sint (run (task_list (task_manager s) index)) = sint (run ?t) - 1) \<and>
         (dispatchable ?t \<and> task_number ?t = ADC_TASK \<longrightarrow>
            filter (\<lambda>c. fst c = index) (snd (task_manager_calls s)) = [(index, Task_1)]) \<and>
         (dispatchable ?t \<and> task_number ?t = FREQ_TASK \<longrightarrow>
            filter (\<lambda>c. fst c = index) (snd (task_manager_calls s)) = [(index, Task_2)]) \<and>
         (dispatchable ?t \<and> task_number ?t \<noteq> ADC_TASK \<and> task_number ?t \<noteq> FREQ_TASK \<longrightarrow>
            filter (\<lambda>c. fst c = index) (snd (task_manager_calls s)) = []) \<and>
         (\<not> dispatchable ?t \<longrightarrow>
            task_list (task_manager s) index = ?t \<and>
            filter (\<lambda>c. fst c = index) (snd (task_manager_calls s)) = []) \<and>
         (task_number ?t = 0 \<longrightarrow> \<not> dispatchable ?t)"
    unfolding t f using a b c r f1 f2 f3 fn by simp
  from slots st show ?thesis
    by blast
qed

text \<open>
  Claim C6 as stated fails for a task number without a body. After
  \<^verbatim>\<open>add_task(0, 3, 0, 0)\<close> at reset and one tick, slot 0 holds task number 3 and a
  pending-run count of 1; the pass calls no body for it, and the state after the pass is
  the state before it with that count set to 0.
\<close>

theorem task_manager_unknown_task_number_no_call:
  "task_list (update (the (add_task 0 3 0 0 reset_state))) 0 =
     \<lparr>task_number = 3, delay = 0, interval = 0, run = 1\<rparr> \<and>
   dispatchable (task_list (update (the (add_task 0 3 0 0 reset_state))) 0) \<and>
   snd (task_manager_calls (update (the (add_task 0 3 0 0 reset_state)))) = [] \<and>
   task_manager (update (the (add_task 0 3 0 0 reset_state))) =
     slot_upd 0 (\<lambda>t. t\<lparr>run := 0\<rparr>) (update (the (add_task 0 3 0 0 reset_state)))"
proof -
  let ?s = "update (the (add_task 0 3 0 0 reset_state))"
  have d: "dispatchable (task_list ?s 0)"
    by (simp add: unknown_task_state dispatchable_def word_sless_alt)
  have s0: "slot_upd 0 serve_task ?s = slot_upd 0 (\<lambda>t. t\<lparr>run := 0\<rparr>) ?s"
    by (rule slot_upd_cong)
      (simp add: unknown_task_state serve_task_def dispatchable_def word_sless_alt)
  have s1: "slot_upd 1 serve_task (slot_upd 0 (\<lambda>t. t\<lparr>run := 0\<rparr>) ?s) =
      slot_upd 0 (\<lambda>t. t\<lparr>run := 0\<rparr>) ?s"
    by (rule slot_upd_same)
      (simp add: slot_upd_def unknown_task_state serve_task_def dispatchable_def)
  have "task_manager ?s = slot_upd 1 serve_task (slot_upd 0 serve_task ?s)"
    by (subst task_manager_state) (simp add: unknown_task_calls)
  then have "task_manager ?s = slot_upd 0 (\<lambda>t. t\<lparr>run := 0\<rparr>) ?s"
    by (simp only: s0 s1)
  then show ?thesis
    using d by (simp add: unknown_task_state unknown_task_calls)
qed

text \<open>
  The theorem of claim C6 after the first tick of the program, when slot 0 is due and
  slot 1 is not: \<^verbatim>\<open>task_1\<close> has run, so the start-conversion bit of \<^verbatim>\<open>ADCSRA\<close> is
  set, and nothing has been transmitted. And at reset, when slot 0 is empty, and on the
  slot with task number 3 above.
\<close>

theorem task_manager_serves_each_slot_once_witness:
  "(0::nat) < TASK_MAX \<and> (1::nat) < TASK_MAX \<and>
   dispatchable (task_list (update (the (init_tasks reset_state))) 0) \<and>
   task_number (task_list (update (the (init_tasks reset_state))) 0) = ADC_TASK \<and>
   task_list (task_manager (update (the (init_tasks reset_state)))) 0 =
     \<lparr>task_number = 1, delay = 100, interval = 100, run = 0\<rparr> \<and>
   filter (\<lambda>c. fst c = 0) (snd (task_manager_calls (update (the (init_tasks reset_state))))) =
     [(0, Task_1)] \<and>
   \<not> dispatchable (task_list (update (the (init_tasks reset_state))) 1) \<and>
   task_list (task_manager (update (the (init_tasks reset_state)))) 1 =
     \<lparr>task_number = 2, delay = 49, interval = 100, run = 0\<rparr> \<and>
   filter (\<lambda>c. fst c = 1) (snd (task_manager_calls (update (the (init_tasks reset_state))))) =
     [] \<and>
   ADCSRA (update (the (init_tasks reset_state))) = 0 \<and>
   ADCSRA (task_manager (update (the (init_tasks reset_state)))) = 64 \<and>
   UDR0_sent (task_manager (update (the (init_tasks reset_state)))) = [] \<and>
   task_number (task_list reset_state 0) = 0 \<and>
   \<not> dispatchable (task_list reset_state 0) \<and>
   filter (\<lambda>c. fst c = 0) (snd (task_manager_calls reset_state)) = [] \<and>
   dispatchable (task_list (update (the (add_task 0 3 0 0 reset_state))) 0) \<and>
   task_number (task_list (update (the (add_task 0 3 0 0 reset_state))) 0) \<noteq> ADC_TASK \<and>
   task_number (task_list (update (the (add_task 0 3 0 0 reset_state))) 0) \<noteq> FREQ_TASK \<and>
   filter (\<lambda>c. fst c = 0)
     (snd (task_manager_calls (update (the (add_task 0 3 0 0 reset_state))))) = []"
proof -
  let ?s = "update (the (init_tasks reset_state))"
  let ?u = "update (the (add_task 0 3 0 0 reset_state))"
  have i: "(0::nat) < TASK_MAX" "(1::nat) < TASK_MAX"
    by (simp_all add: TASK_MAX_def)
  have d0: "dispatchable (task_list ?s 0)" "task_number (task_list ?s 0) = ADC_TASK"
    by (simp_all add: first_tick_state dispatchable_def word_sless_alt ADC_TASK_def)
  have d1: "\<not> dispatchable (task_list ?s 1)"
    by (simp add: first_tick_state dispatchable_def word_sless_alt)
  have z: "task_number (task_list reset_state 0) = 0"
    by (simp add: reset_state_def)
  have du: "dispatchable (task_list ?u 0)" "task_number (task_list ?u 0) \<noteq> ADC_TASK"
    "task_number (task_list ?u 0) \<noteq> FREQ_TASK"
    by (simp_all add: unknown_task_state dispatchable_def word_sless_alt ADC_TASK_def
        FREQ_TASK_def)
  have r0: "ADCSRA ?s = 0" "UDR0_sent ?s = []"
    by (simp_all add: registers_update registers_init_tasks_reset_state)
  note T0 = task_manager_serves_each_slot_once [OF i(1), of ?s]
  note T1 = task_manager_serves_each_slot_once [OF i(2), of ?s]
  note TR = task_manager_serves_each_slot_once [OF i(1), of reset_state]
  note TU = task_manager_serves_each_slot_once [OF i(1), of ?u]
  have e0: "task_list (task_manager ?s) 0 =
      \<lparr>task_number = 1, delay = 100, interval = 100, run = 0\<rparr>"
    using T0 [THEN conjunct1] d0 by (simp add: first_tick_state)
  have c0: "filter (\<lambda>c. fst c = 0) (snd (task_manager_calls ?s)) = [(0, Task_1)]"
    using T0 [THEN conjunct2, THEN conjunct1] d0 by simp
  have e1: "task_list (task_manager ?s) 1 =
      \<lparr>task_number = 2, delay = 49, interval = 100, run = 0\<rparr>"
    and c1: "filter (\<lambda>c. fst c = 1) (snd (task_manager_calls ?s)) = []"
    using T1 [THEN conjunct2, THEN conjunct2, THEN conjunct2, THEN conjunct2, THEN conjunct1] d1
    by (simp_all add: first_tick_state)
  have nr: "\<not> dispatchable (task_list reset_state 0)"
    using TR [THEN conjunct2, THEN conjunct2, THEN conjunct2, THEN conjunct2, THEN conjunct2,
        THEN conjunct1] z by simp
  have cr: "filter (\<lambda>c. fst c = 0) (snd (task_manager_calls reset_state)) = []"
    using TR [THEN conjunct2, THEN conjunct2, THEN conjunct2, THEN conjunct2, THEN conjunct1] nr
    by simp
  have cu: "filter (\<lambda>c. fst c = 0) (snd (task_manager_calls ?u)) = []"
    using TU [THEN conjunct2, THEN conjunct2, THEN conjunct2, THEN conjunct1] du by simp
  have "task_manager ?s = slot_upd 1 serve_task (slot_upd 0 serve_task (task_1 ?s))"
    using T0 [THEN conjunct2, THEN conjunct2, THEN conjunct2, THEN conjunct2, THEN conjunct2,
        THEN conjunct2]
    by (simp add: first_tick_calls)
  then have eff: "ADCSRA (task_manager ?s) = 64" "UDR0_sent (task_manager ?s) = []"
    by (simp_all add: task_1_def Let_def ADSC_def r0)
  show ?thesis
    by (simp only: i d0 d1 z du r0 eff e0 c0 e1 c1 nr cr cu simp_thms)
qed

section \<open>Properties of the scheduler\<close>
section \<open>Properties of the scheduler\<close>

subsection \<open>The delay of one slot over the ticks\<close>

lemma mod_Suc_le: "(x::nat) mod (k + 1) \<le> k"
proof -
  have "x mod (k + 1) < k + 1" by (rule mod_less_divisor) simp
  then show ?thesis by linarith
qed

lemma mod_Suc_eq_0_iff: "Suc x mod (k + 1) = 0 \<longleftrightarrow> x mod (k + 1) = k"
  using mod_Suc_le [of x k] by (auto simp: mod_Suc)

lemma delay_step_funpow:
  "(delay_step k ^^ m) d = (if m \<le> d then d - m else k - (m - d - 1) mod (k + 1))"
proof (induction m)
  case 0
  show ?case by simp
next
  case (Suc m)
  have step: "(delay_step k ^^ Suc m) d = delay_step k ((delay_step k ^^ m) d)"
    by simp
  consider "m < d" | "m = d" | "d < m" by linarith
  then show ?case
  proof cases
    case 1
    then have "(delay_step k ^^ m) d = d - m" using Suc by simp
    then have "(delay_step k ^^ Suc m) d = d - m - 1"
      using 1 unfolding step by (simp add: delay_step_def)
    with 1 show ?thesis by simp
  next
    case 2
    then have "(delay_step k ^^ m) d = 0" using Suc by simp
    then have "(delay_step k ^^ Suc m) d = k"
      unfolding step by (simp add: delay_step_def)
    with 2 show ?thesis by simp
  next
    case 3
    let ?j = "(m - d - 1) mod (k + 1)"
    have j: "?j \<le> k" by (rule mod_Suc_le)
    have v: "(delay_step k ^^ m) d = k - ?j" using Suc 3 by simp
    have md: "Suc m - d - 1 = Suc (m - d - 1)" using 3 by simp
    have goal: "(delay_step k ^^ Suc m) d = k - (Suc m - d - 1) mod (k + 1)"
    proof (cases "?j = k")
      case True
      then have "(Suc m - d - 1) mod (k + 1) = 0"
        unfolding md by (simp only: mod_Suc_eq_0_iff)
      moreover have "(delay_step k ^^ Suc m) d = k"
        unfolding step v using True by (simp add: delay_step_def)
      ultimately show ?thesis by simp
    next
      case False
      with j have lt: "?j < k" by linarith
      then have "(Suc m - d - 1) mod (k + 1) = Suc ?j"
        unfolding md by (simp add: mod_Suc)
      moreover have "(delay_step k ^^ Suc m) d = k - ?j - 1"
        unfolding step v using lt by (simp add: delay_step_def)
      ultimately show ?thesis by simp
    qed
    show ?thesis using 3 goal by simp
  qed
qed

lemma cycle_task_fields:
  "task_number (cycle_task t) = task_number t"
  "interval (cycle_task t) = interval t"
  by (simp_all add: cycle_task_def serve_task_def tick_task_def)

lemma cycle_task_delay:
  "task_number t \<noteq> 0 \<Longrightarrow>
   unat (delay (cycle_task t)) = delay_step (unat (interval t)) (unat (delay t))"
  by (auto simp: cycle_task_def serve_task_def tick_task_def delay_step_def unat_eq_0 unat_minus_one)

lemma task_list_tick_cycle:
  "index < TASK_MAX \<Longrightarrow> task_list (tick_cycle s) index = cycle_task (task_list s index)"
  by (simp add: tick_cycle_def cycle_task_def task_list_task_manager task_list_update)

lemma task_list_tick_cycles:
  "index < TASK_MAX \<Longrightarrow>
   task_list ((tick_cycle ^^ m) s) index = (cycle_task ^^ m) (task_list s index)"
  by (induction m) (simp_all add: task_list_tick_cycle)

lemma cycles_task_fields:
  "task_number ((cycle_task ^^ m) t) = task_number t \<and>
   interval ((cycle_task ^^ m) t) = interval t"
  by (induction m) (simp_all add: cycle_task_fields)

lemma cycles_task_delay:
  "task_number t \<noteq> 0 \<Longrightarrow>
   unat (delay ((cycle_task ^^ m) t)) = (delay_step (unat (interval t)) ^^ m) (unat (delay t))"
proof (induction m)
  case 0
  show ?case by simp
next
  case (Suc m)
  let ?t = "(cycle_task ^^ m) t"
  have "task_number ?t \<noteq> 0" "interval ?t = interval t"
    using Suc.prems cycles_task_fields [of m t] by simp_all
  then have "unat (delay (cycle_task ?t)) = delay_step (unat (interval t)) (unat (delay ?t))"
    using cycle_task_delay [of ?t] by simp
  then show ?case
    using Suc by simp
qed

lemma cycle_task_drains: "run t = 0 \<Longrightarrow> run (cycle_task t) = 0"
  by (simp add: cycle_task_def serve_task_def tick_task_def dispatchable_def word_sless_alt)

text \<open>
  With a pass of the dispatcher after every tick, a pending-run count that starts at
  zero is back at zero before every tick.
\<close>

lemma tick_cycles_drained:
  "index < TASK_MAX \<Longrightarrow> run (task_list s index) = 0 \<Longrightarrow>
   run (task_list ((tick_cycle ^^ m) s) index) = 0"
proof (induction m)
  case 0
  then show ?case
    by simp
next
  case (Suc m)
  then show ?case
    by (simp add: task_list_tick_cycle cycle_task_drains)
qed

subsection \<open>The ticks on which a task is made runnable\<close>

lemma run_incremented_iff:
  "index < TASK_MAX \<Longrightarrow>
   run_incremented index s \<longleftrightarrow>
     task_number (task_list s index) \<noteq> 0 \<and> delay (task_list s index) = 0"
  by (auto simp: run_incremented_def task_list_update tick_task_def)

lemma made_runnable_at_iff:
  assumes "index < TASK_MAX" and "task_number (task_list s index) \<noteq> 0" and "0 < n"
  shows "made_runnable_at n index s \<longleftrightarrow>
     unat (delay (task_list s index)) + 1 \<le> n \<and>
     (n - (unat (delay (task_list s index)) + 1)) mod (unat (interval (task_list s index)) + 1) = 0"
proof -
  let ?t = "task_list s index"
  let ?d = "unat (delay ?t)"
  let ?k = "unat (interval ?t)"
  let ?m = "n - 1"
  let ?tm = "(cycle_task ^^ ?m) ?t"
  have tn: "task_number ?tm \<noteq> 0"
    using assms(2) cycles_task_fields [of ?m ?t] by simp
  have "made_runnable_at n index s \<longleftrightarrow> delay ?tm = 0"
    using tn by (simp add: made_runnable_at_def run_incremented_iff [OF assms(1)]
        task_list_tick_cycles [OF assms(1)])
  also have "\<dots> \<longleftrightarrow> (delay_step ?k ^^ ?m) ?d = 0"
    using cycles_task_delay [OF assms(2), of ?m] by (simp add: unat_eq_0 [symmetric])
  also have "\<dots> \<longleftrightarrow> (if ?m \<le> ?d then ?d - ?m else ?k - (?m - ?d - 1) mod (?k + 1)) = 0"
    by (simp only: delay_step_funpow)
  also have "\<dots> \<longleftrightarrow> ?d + 1 \<le> n \<and> (n - (?d + 1)) mod (?k + 1) = 0"
  proof -
    consider "?m < ?d" | "?m = ?d" | "?d < ?m" by linarith
    then show ?thesis
    proof cases
      case 1
      then show ?thesis by simp
    next
      case 2
      then show ?thesis using assms(3) by simp
    next
      case 3
      let ?j = "(?m - ?d - 1) mod (?k + 1)"
      have j: "?j \<le> ?k" by (rule mod_Suc_le)
      have e: "n - (?d + 1) = Suc (?m - ?d - 1)" using 3 by simp
      have "(n - (?d + 1)) mod (?k + 1) = 0 \<longleftrightarrow> ?j = ?k"
        unfolding e by (rule mod_Suc_eq_0_iff)
      moreover have "?k - ?j = 0 \<longleftrightarrow> ?j = ?k" using j by linarith
      moreover have "\<not> ?m \<le> ?d" "?d + 1 \<le> n" using 3 by simp_all
      ultimately show ?thesis by (simp only: if_False simp_thms)
    qed
  qed
  finally show ?thesis .
qed

text \<open>
  Claim C2. The claim is that a task with initial delay \<open>d\<close> and non-zero interval
  \<open>k\<close> is first made runnable by tick \<open>d + 1\<close> and then by every \<open>k\<close>-th tick after
  it, when the dispatcher brings the pending-run count back to zero between ticks. The
  first half holds; the second does not: the task is made runnable by the ticks
  \<open>d + 1\<close>, \<open>d + 1 + (k + 1)\<close>, \<open>d + 1 + 2 * (k + 1)\<close>, and so on, every
  \<open>(k + 1)\<close>-th tick, because the reloaded delay is counted down to zero over \<open>k\<close>
  ticks and the task is made runnable by the tick after those. The two bounds say that
  delay and interval are not negative as \<^verbatim>\<open>int16_t\<close>.
\<close>

theorem update_period_is_interval_plus_one:
  assumes "index < TASK_MAX"
    and "task_number (task_list s index) \<noteq> 0"
    and "interval (task_list s index) \<noteq> 0"
    and "unat (delay (task_list s index)) \<le> 32767"
    and "unat (interval (task_list s index)) \<le> 32767"
    and "run (task_list s index) = 0"
    and "0 < n"
  shows "(made_runnable_at n index s \<longleftrightarrow>
           unat (delay (task_list s index)) + 1 \<le> n \<and>
           (n - (unat (delay (task_list s index)) + 1)) mod
             (unat (interval (task_list s index)) + 1) = 0) \<and>
         run (task_list ((tick_cycle ^^ n) s) index) = 0"
  using made_runnable_at_iff [OF assms(1) assms(2) assms(7)]
    tick_cycles_drained [OF assms(1) assms(6)] by simp

text \<open>
  On the table of the program itself: the ADC task, registered with delay 0 and
  interval 100, is made runnable by tick 1, not by tick 101, and by tick 102.
\<close>

theorem update_period_is_interval_plus_one_witness:
  "(0::nat) < TASK_MAX \<and>
   task_number (task_list (the (init_tasks reset_state)) 0) \<noteq> 0 \<and>
   unat (delay (task_list (the (init_tasks reset_state)) 0)) = 0 \<and>
   unat (interval (task_list (the (init_tasks reset_state)) 0)) = 100 \<and>
   run (task_list (the (init_tasks reset_state)) 0) = 0 \<and>
   made_runnable_at 1 0 (the (init_tasks reset_state)) \<and>
   \<not> made_runnable_at 101 0 (the (init_tasks reset_state)) \<and>
   made_runnable_at 102 0 (the (init_tasks reset_state))"
proof -
  let ?s = "the (init_tasks reset_state)"
  have h: "(0::nat) < TASK_MAX" "task_number (task_list ?s 0) \<noteq> 0"
    "interval (task_list ?s 0) \<noteq> 0" "unat (delay (task_list ?s 0)) \<le> 32767"
    "unat (interval (task_list ?s 0)) \<le> 32767" "run (task_list ?s 0) = 0"
    by (simp_all add: init_tasks_reset_state TASK_MAX_def)
  have v: "unat (delay (task_list ?s 0)) = 0" "unat (interval (task_list ?s 0)) = 100"
    by (simp_all add: init_tasks_reset_state)
  have "made_runnable_at 1 0 ?s"
    using update_period_is_interval_plus_one [OF h, of 1] by (simp add: v)
  moreover have "\<not> made_runnable_at 101 0 ?s"
    using update_period_is_interval_plus_one [OF h, of 101] by (simp add: v)
  moreover have "made_runnable_at 102 0 ?s"
    using update_period_is_interval_plus_one [OF h, of 102] by (simp add: v)
  ultimately show ?thesis
    using h v by simp
qed

text \<open>
  Claim C3. The claim is that a task registered with interval zero is made runnable
  once and by no later tick. The code does not do that: for such a task the delay,
  once zero, is never reloaded and stays zero, so every tick from tick \<open>d + 1\<close> on
  (\<open>d\<close> the initial delay, not negative as \<^verbatim>\<open>int16_t\<close>) increments the
  pending-run count again.
\<close>

theorem one_shot_task_fires_every_tick:
  assumes "index < TASK_MAX"
    and "task_number (task_list s index) \<noteq> 0"
    and "interval (task_list s index) = 0"
    and "unat (delay (task_list s index)) \<le> 32767"
    and "0 < n"
  shows "made_runnable_at n index s \<longleftrightarrow>
    unat (delay (task_list s index)) + 1 \<le> n"
  using made_runnable_at_iff [OF assms(1) assms(2) assms(5)] assms(3) by simp

lemma one_shot_state:
  "task_list (the (add_task 0 ADC_TASK 0 0 reset_state)) 0 =
     \<lparr>task_number = 1, delay = 0, interval = 0, run = 0\<rparr>"
  by (simp add: add_task_def TASK_MAX_def slot_upd_def ADC_TASK_def reset_state_def)

text \<open>
  After \<^verbatim>\<open>add_task(0, ADC_TASK, 0, 0)\<close> at reset the task is made runnable by the
  first tick, and again by the second and by the third.
\<close>

theorem one_shot_task_fires_every_tick_witness:
  "(0::nat) < TASK_MAX \<and>
   task_number (task_list (the (add_task 0 ADC_TASK 0 0 reset_state)) 0) \<noteq> 0 \<and>
   interval (task_list (the (add_task 0 ADC_TASK 0 0 reset_state)) 0) = 0 \<and>
   unat (delay (task_list (the (add_task 0 ADC_TASK 0 0 reset_state)) 0)) \<le> 32767 \<and>
   made_runnable_at 1 0 (the (add_task 0 ADC_TASK 0 0 reset_state)) \<and>
   made_runnable_at 2 0 (the (add_task 0 ADC_TASK 0 0 reset_state)) \<and>
   made_runnable_at 3 0 (the (add_task 0 ADC_TASK 0 0 reset_state))"
proof -
  let ?s = "the (add_task 0 ADC_TASK 0 0 reset_state)"
  have h: "(0::nat) < TASK_MAX" "task_number (task_list ?s 0) \<noteq> 0"
    "interval (task_list ?s 0) = 0" "unat (delay (task_list ?s 0)) \<le> 32767"
    by (simp_all add: one_shot_state TASK_MAX_def)
  have v: "unat (delay (task_list ?s 0)) = 0"
    by (simp add: one_shot_state)
  have "made_runnable_at 1 0 ?s" "made_runnable_at 2 0 ?s" "made_runnable_at 3 0 ?s"
    using one_shot_task_fires_every_tick [OF h, of 1]
      one_shot_task_fires_every_tick [OF h, of 2]
      one_shot_task_fires_every_tick [OF h, of 3] by (simp_all add: v)
  then show ?thesis
    using h by simp
qed

section \<open>The range of the frequency control value\<close>

text \<open>
  Only the conversion completion handler writes \<^verbatim>\<open>frequency_control\<close>: the tick, the
  dispatcher with its task bodies, and the sleep pass leave it as it is.
\<close>

lemma frequency_control_slot_upd [simp]:
  "frequency_control (slot_upd i f s) = frequency_control s"
  by (simp add: slot_upd_def)

lemma frequency_control_exec_body [simp]:
  "frequency_control (exec_body b s) = frequency_control s"
  by (cases b) (simp_all add: exec_body_def task_1_def task_2_eq Let_def)

lemma frequency_control_fold_exec_body [simp]:
  "frequency_control (fold exec_body bs s) = frequency_control s"
  by (induction bs arbitrary: s) simp_all

lemma frequency_control_task_manager:
  "frequency_control (task_manager s) = frequency_control s"
  by (subst task_manager_state) simp

lemma frequency_control_update_slot [simp]:
  "frequency_control (update_slot i s) = frequency_control s"
  by (simp add: update_slot_def Let_def)

lemma frequency_control_update: "frequency_control (update s) = frequency_control s"
  unfolding update_def upt_TASK_MAX by simp

lemma frequency_control_go_sleep: "frequency_control (go_sleep s) = frequency_control s"
  by (simp add: go_sleep_def go_sleep_resume_def wake_def PCINT2_vect_def go_sleep_entry_def
      sleep_disable_def sleep_cpu_def sei_def cli_def sleep_enable_def set_sleep_mode_def)

text \<open>
  Claim C5. The frequency control value lies in \<open>[124, 2499]\<close> at reset, where it is
  283, and after every run of the conversion completion handler on a raw input in
  \<open>[0, 1023]\<close>; and no other operation of the program changes it.
\<close>

theorem frequency_control_in_range:
  "124 \<le> unat (frequency_control reset_state) \<and>
   unat (frequency_control reset_state) \<le> 2499 \<and>
   (\<forall>r s. unat r \<le> 1023 \<longrightarrow>
      124 \<le> unat (frequency_control (ADC_vect r s)) \<and>
      unat (frequency_control (ADC_vect r s)) \<le> 2499) \<and>
   (\<forall>s. frequency_control (update s) = frequency_control s \<and>
        frequency_control (task_manager s) = frequency_control s \<and>
        frequency_control (go_sleep s) = frequency_control s)"
proof -
  have "unat (frequency_control reset_state) = 283"
    by (simp add: reset_state_def)
  moreover have "unat (frequency_control (ADC_vect r s)) \<le> 2499" for r s
    using ADC_vect_upper [of r s] by linarith
  ultimately show ?thesis
    using ADC_vect_lower
    by (simp add: frequency_control_update frequency_control_task_manager
        frequency_control_go_sleep)
qed

text \<open>The theorem of claim C5 at the largest raw input, 1023, from reset.\<close>

theorem frequency_control_in_range_witness:
  "unat (1023 :: uint16_t) \<le> 1023 \<and>
   124 \<le> unat (frequency_control (ADC_vect 1023 reset_state)) \<and>
   unat (frequency_control (ADC_vect 1023 reset_state)) \<le> 2499"
proof -
  have h: "unat (1023 :: uint16_t) \<le> 1023"
    by simp
  have "\<forall>r s. unat r \<le> 1023 \<longrightarrow>
      124 \<le> unat (frequency_control (ADC_vect r s)) \<and>
      unat (frequency_control (ADC_vect r s)) \<le> 2499"
    using frequency_control_in_range by blast
  then have "124 \<le> unat (frequency_control (ADC_vect 1023 reset_state)) \<and>
      unat (frequency_control (ADC_vect 1023 reset_state)) \<le> 2499"
    using h by blast
  with h show ?thesis
    by blast
qed

end
